theory Spec2Isabelle
  imports Main "HOL-Library.Sublist"
begin

section \<open>FolderKeywordRename: the configuration and the console\<close>

text \<open>
  The program is one translation unit, \<^verbatim>\<open>FolderKeywordRename.cpp\<close>. A \<^verbatim>\<open>std::string\<close>
  is a sequence of bytes and is modelled by \<^typ>\<open>string\<close>; the empty string is \<open>[]\<close>.
\<close>

record Config =
  keyword :: string
  newName :: string
  command :: string
  executeCommand :: bool
  verbose :: bool

text \<open>The value of \<^verbatim>\<open>Config config;\<close> in \<^verbatim>\<open>main\<close>: empty strings and the two member
  initialisers \<^verbatim>\<open>= false\<close>.\<close>

definition default_config :: Config where
  "default_config =
     \<lparr>keyword = [], newName = [], command = [], executeCommand = False, verbose = False\<rparr>"

text \<open>
  Everything the program writes is kept as a list of lines, in the order written. The
  texts themselves are Chinese; each constructor stands for one output statement of the
  source and carries the values that statement interpolates.
\<close>

datatype line =
    Usage                          \<comment> \<open>the whole of \<^verbatim>\<open>showHelp()\<close>\<close>
  | Missing_keyword_value          \<comment> \<open>line 74\<close>
  | Missing_newname_value          \<comment> \<open>line 82\<close>
  | Missing_command_value          \<comment> \<open>line 91\<close>
  | Unknown_option string          \<comment> \<open>line 96\<close>
  | Required_missing               \<comment> \<open>line 102\<close>
  | Executing string               \<comment> \<open>line 125\<close>
  | Command_failed int             \<comment> \<open>line 131\<close>
  | Command_succeeded              \<comment> \<open>line 136\<close>
  | Start_processing               \<comment> \<open>line 155\<close>
  | Show_keyword string            \<comment> \<open>line 156\<close>
  | Show_newname string            \<comment> \<open>line 157\<close>
  | Show_command string            \<comment> \<open>line 159\<close>
  | Separator                      \<comment> \<open>line 161\<close>
  | Found_match string             \<comment> \<open>line 176\<close>
  | No_match string                \<comment> \<open>line 183\<close>
  | Ambiguous_warning nat          \<comment> \<open>lines 188-189\<close>
  | Narrow_keyword_hint            \<comment> \<open>line 190\<close>
  | Target_exists string           \<comment> \<open>line 200\<close>
  | Rename_succeeded string string \<comment> \<open>line 206\<close>
  | Running_followup               \<comment> \<open>line 210\<close>
  | Filesystem_error_text string   \<comment> \<open>line 217\<close>
  | Error_text string              \<comment> \<open>line 220\<close>
  | Processing_done                \<comment> \<open>line 225\<close>

datatype out = Cout line | Cerr line

definition showHelp :: "out list" where
  "showHelp = [Cout Usage]"

section \<open>parseArguments\<close>

text \<open>
  \<^verbatim>\<open>parseArguments(argc, argv, config)\<close> walks \<^verbatim>\<open>argv[1] .. argv[argc-1]\<close>. The model takes
  these tokens as a list; an option that takes a value consumes the token after it
  (\<^verbatim>\<open>argv[++i]\<close>), whatever that token is. The result is the returned \<^verbatim>\<open>bool\<close>, the
  \<^verbatim>\<open>config\<close> as the call leaves it and the lines written.
\<close>

fun parse_loop :: "string list \<Rightarrow> Config \<Rightarrow> bool \<times> Config \<times> out list" where
  "parse_loop [] config = (True, config, [])"
| "parse_loop (arg # rest) config =
     (if arg = ''-h'' \<or> arg = ''--help'' then (False, config, showHelp)
      else if arg = ''-v'' \<or> arg = ''--verbose'' then
        parse_loop rest (config\<lparr>verbose := True\<rparr>)
      else if arg = ''-k'' \<or> arg = ''--keyword'' then
        (case rest of
           v # rest' \<Rightarrow> parse_loop rest' (config\<lparr>keyword := v\<rparr>)
         | [] \<Rightarrow> (False, config, [Cerr Missing_keyword_value]))
      else if arg = ''-n'' \<or> arg = ''--newname'' then
        (case rest of
           v # rest' \<Rightarrow> parse_loop rest' (config\<lparr>newName := v\<rparr>)
         | [] \<Rightarrow> (False, config, [Cerr Missing_newname_value]))
      else if arg = ''-c'' \<or> arg = ''--command'' then
        (case rest of
           v # rest' \<Rightarrow> parse_loop rest' (config\<lparr>command := v, executeCommand := True\<rparr>)
         | [] \<Rightarrow> (False, config, [Cerr Missing_command_value]))
      else (False, config, [Cerr (Unknown_option arg)]))"

definition parseArguments :: "string list \<Rightarrow> Config \<Rightarrow> bool \<times> Config \<times> out list" where
  "parseArguments args config =
     (case parse_loop args config of
        (False, config', written) \<Rightarrow> (False, config', written)
      | (True, config', written) \<Rightarrow>
          if keyword config' = [] \<or> newName config' = []
          then (False, config', written @ [Cerr Required_missing] @ showHelp)
          else (True, config', written))"

section \<open>containsKeyword\<close>

text \<open>
  \<^verbatim>\<open>::tolower\<close> is the C library's, and what it returns depends on the locale in force:
  \<^verbatim>\<open>setConsoleEncoding()\<close> installs the locale of the environment (line 39) before any
  name is lower-cased. The lowering is therefore a parameter \<open>lower\<close> of the model; \<^verbatim>\<open>main\<close>
  passes the one of its host.
\<close>

text \<open>
  \<^verbatim>\<open>std::string::find\<close>: the least position at which the argument occurs, \<^verbatim>\<open>npos\<close>
  (here \<open>None\<close>) when there is none. The empty string is found at position 0 of every
  string, the empty one included.
\<close>

fun string_find :: "string \<Rightarrow> string \<Rightarrow> nat option" where
  "string_find [] k = (if k = [] then Some 0 else None)"
| "string_find (c # s) k =
     (if prefix k (c # s) then Some 0 else map_option Suc (string_find s k))"

definition containsKeyword :: "(char \<Rightarrow> char) \<Rightarrow> string \<Rightarrow> string \<Rightarrow> bool" where
  "containsKeyword lower folderName kw =
     (let lowerFolder = map lower folderName;
          lowerKeyword = map lower kw
      in string_find lowerFolder lowerKeyword \<noteq> None)"

section \<open>The host: file system and command interpreter\<close>

text \<open>
  \<^verbatim>\<open>std::filesystem\<close>, \<^verbatim>\<open>std::system\<close> and \<^verbatim>\<open>std::locale\<close> are not code of this program.
  They are parameters of the model: a \<open>host\<close> gives, for a state \<open>'w\<close> of the world
  outside the program, the answer of each call the program makes. A call that throws
  answers with the exception; the two \<^verbatim>\<open>catch\<close> clauses of \<^verbatim>\<open>main\<close> tell a
  \<^verbatim>\<open>fs::filesystem_error\<close> from any other \<^verbatim>\<open>std::exception\<close>, each with its \<^verbatim>\<open>what()\<close>.
\<close>

datatype exn = Filesystem_error string | Std_exception string

text \<open>
  One entry produced by \<^verbatim>\<open>fs::directory_iterator\<close>: \<^verbatim>\<open>entry.path()\<close>, the text
  \<^verbatim>\<open>entry.path().filename().string()\<close> of its final component, and \<^verbatim>\<open>entry.is_directory()\<close>.
\<close>

record dir_entry =
  path :: string
  filename :: string
  is_directory :: bool

text \<open>
  \<^item> \<open>setConsoleEncoding\<close>: what the call \<^verbatim>\<open>setConsoleEncoding()\<close> throws, if anything;
    \<^verbatim>\<open>std::locale("")\<close> throws when the environment names a locale the system does not
    have. The call is outside the \<^verbatim>\<open>try\<close> block of \<^verbatim>\<open>main\<close>.
  \<^item> \<open>tolower\<close>: \<^verbatim>\<open>::tolower\<close> in the locale that call has installed, on bytes.
  \<^item> \<open>list_dir\<close>: the iteration over \<^verbatim>\<open>fs::directory_iterator(".")\<close>: the entries it
    yields, in its order, and the exception that ends it early, if any (thrown by the
    constructor, by an increment, or by \<^verbatim>\<open>is_directory\<close> on the entry that would come
    next: the loop body does nothing with an entry before that call).
  \<^item> \<open>path_exists\<close>: \<^verbatim>\<open>fs::exists(p)\<close>.
  \<^item> \<open>rename_path\<close>: \<^verbatim>\<open>fs::rename(from, to)\<close>; the world after it, or the exception, in
    which case nothing was renamed.
  \<^item> \<open>run_system\<close>: \<^verbatim>\<open>std::system(cmd)\<close>: its \<^verbatim>\<open>int\<close> result and the world the command
    leaves behind.
\<close>

record 'w host =
  setConsoleEncoding :: "exn option"
  tolower :: "char \<Rightarrow> char"
  list_dir :: "'w \<Rightarrow> dir_entry list \<times> exn option"
  path_exists :: "'w \<Rightarrow> string \<Rightarrow> exn + bool"
  rename_path :: "'w \<Rightarrow> string \<Rightarrow> string \<Rightarrow> exn + 'w"
  run_system :: "'w \<Rightarrow> string \<Rightarrow> int \<times> 'w"

text \<open>The calls the program makes on the host, in the order it makes them; a rename and
  a command are kept with their answer.\<close>

datatype effect =
    Listed
  | Exists_checked string
  | Rename_called string string bool   \<comment> \<open>from, to, whether it returned normally\<close>
  | System_called string int           \<comment> \<open>the command line and the result\<close>

text \<open>How the process ends: \<^verbatim>\<open>return n\<close> from \<^verbatim>\<open>main\<close>, or \<^verbatim>\<open>std::terminate\<close> on an
  exception thrown outside the \<^verbatim>\<open>try\<close> block.\<close>

datatype status = Exit int | Terminated exn

record 'w run =
  status :: status
  written :: "out list"
  effects :: "effect list"
  world :: "'w"

section \<open>executeExternalCommand\<close>

definition executeExternalCommand ::
  "'w host \<Rightarrow> 'w \<Rightarrow> string \<Rightarrow> bool \<Rightarrow> bool \<times> out list \<times> int \<times> 'w" where
  "executeExternalCommand h w cmd verb =
     (let echo = (if verb then [Cout (Executing cmd)] else []);
          (result, w') = run_system h w cmd
      in if result \<noteq> 0 then (False, echo @ [Cerr (Command_failed result)], result, w')
         else (True, echo @ (if verb then [Cout Command_succeeded] else []), result, w'))"

section \<open>main\<close>

text \<open>The loop of lines 168-180, with the lowering in force: the matched entries, in
  listing order, and the lines a verbose run writes for them.\<close>

fun scan ::
  "(char \<Rightarrow> char) \<Rightarrow> Config \<Rightarrow> dir_entry list \<Rightarrow> dir_entry list \<times> out list" where
  "scan lower config [] = ([], [])"
| "scan lower config (entry # entries) =
     (let (matchedFolders, lines) = scan lower config entries
      in if is_directory entry \<and> containsKeyword lower (filename entry) (keyword config)
         then (entry # matchedFolders,
               (if verbose config then [Cout (Found_match (filename entry))] else []) @ lines)
         else (matchedFolders, lines))"

text \<open>The \<^verbatim>\<open>catch\<close> clauses, lines 216-222.\<close>

fun handler :: "exn \<Rightarrow> out" where
  "handler (Filesystem_error what) = Cerr (Filesystem_error_text what)"
| "handler (Std_exception what) = Cerr (Error_text what)"

text \<open>Lines 154-162.\<close>

definition banner :: "Config \<Rightarrow> out list" where
  "banner config =
     (if verbose config
      then [Cout Start_processing, Cout (Show_keyword (keyword config)),
            Cout (Show_newname (newName config))]
           @ (if executeCommand config then [Cout (Show_command (command config))] else [])
           @ [Cout Separator]
      else [])"

text \<open>
  The \<^verbatim>\<open>try\<close> block with its handlers and the code after it (lines 164-228), for a
  parsed \<open>config\<close>. \<open>pre\<close> is what has been written so far.
\<close>

definition process :: "'w host \<Rightarrow> 'w \<Rightarrow> Config \<Rightarrow> out list \<Rightarrow> 'w run" where
  "process h w config pre =
     (let (entries, failure) = list_dir h w;
          (matchedFolders, found) = scan (tolower h) config entries;
          pre1 = pre @ found
      in case failure of
           Some e \<Rightarrow>
             \<lparr>status = Exit 1, written = pre1 @ [handler e], effects = [Listed], world = w\<rparr>
         | None \<Rightarrow>
             if matchedFolders = [] then
               \<lparr>status = Exit 0, written = pre1 @ [Cout (No_match (keyword config))],
                effects = [Listed], world = w\<rparr>
             else if length matchedFolders > 1 then
               \<lparr>status = Exit 1,
                written = pre1 @ [Cout (Ambiguous_warning (length matchedFolders)),
                                  Cout Narrow_keyword_hint],
                effects = [Listed], world = w\<rparr>
             else
               let oldPath = hd matchedFolders;
                   newPath = newName config;
                   eff1 = [Listed, Exists_checked newPath]
               in (case path_exists h w newPath of
                    Inl e \<Rightarrow>
                      \<lparr>status = Exit 1, written = pre1 @ [handler e], effects = eff1,
                       world = w\<rparr>
                  | Inr True \<Rightarrow>
                      \<lparr>status = Exit 1,
                       written = pre1 @ [Cerr (Target_exists (newName config))],
                       effects = eff1, world = w\<rparr>
                  | Inr False \<Rightarrow>
                      (case rename_path h w (path oldPath) newPath of
                         Inl e \<Rightarrow>
                           \<lparr>status = Exit 1, written = pre1 @ [handler e],
                            effects = eff1 @ [Rename_called (path oldPath) newPath False],
                            world = w\<rparr>
                       | Inr w1 \<Rightarrow>
                           let pre2 = pre1 @ [Cout (Rename_succeeded (filename oldPath)
                                                      (newName config))];
                               eff2 = eff1 @ [Rename_called (path oldPath) newPath True];
                               finish = (if verbose config then [Cout Processing_done] else [])
                           in if executeCommand config then
                                let (ok, lines, result, w2) =
                                      executeExternalCommand h w1 (command config)
                                        (verbose config);
                                    pre3 = pre2 @ [Cout Running_followup] @ lines;
                                    eff3 = eff2 @ [System_called (command config) result]
                                in if \<not> ok then
                                     \<lparr>status = Exit 1, written = pre3, effects = eff3,
                                      world = w2\<rparr>
                                   else
                                     \<lparr>status = Exit 0, written = pre3 @ finish,
                                      effects = eff3, world = w2\<rparr>
                              else
                                \<lparr>status = Exit 0, written = pre2 @ finish, effects = eff2,
                                 world = w1\<rparr>)))"

text \<open>\<^verbatim>\<open>main\<close>, for the tokens \<^verbatim>\<open>argv[1] .. argv[argc-1]\<close>.\<close>

definition main :: "'w host \<Rightarrow> 'w \<Rightarrow> string list \<Rightarrow> 'w run" where
  "main h w args =
     (case setConsoleEncoding h of
        Some e \<Rightarrow> \<lparr>status = Terminated e, written = [], effects = [], world = w\<rparr>
      | None \<Rightarrow>
          (case parseArguments args default_config of
             (False, config, lines) \<Rightarrow>
               \<lparr>status = Exit 1, written = lines, effects = [], world = w\<rparr>
           | (True, config, lines) \<Rightarrow> process h w config (lines @ banner config)))"

section \<open>Notions used to state the properties\<close>

subsection \<open>Letter case in the ASCII range\<close>

text \<open>
  The lowering of the C locale: the bytes \<open>A\<close> .. \<open>Z\<close> (65 .. 90) move to \<open>a\<close> .. \<open>z\<close>,
  every other byte is returned as it is. Its counterpart moves \<open>a\<close> .. \<open>z\<close> (97 .. 122)
  to \<open>A\<close> .. \<open>Z\<close>. The two state what lower-casing and upper-casing a name or a
  keyword mean; the program calls neither.
\<close>

definition ascii_tolower :: "char \<Rightarrow> char" where
  "ascii_tolower c =
     (let n = (of_char c :: nat) in if 65 \<le> n \<and> n \<le> 90 then char_of (n + 32) else c)"

definition ascii_toupper :: "char \<Rightarrow> char" where
  "ascii_toupper c =
     (let n = (of_char c :: nat) in if 97 \<le> n \<and> n \<le> 122 then char_of (n - 32) else c)"




text \<open>
  A lowering acts as the ASCII one on a string when it agrees with \<open>ascii_tolower\<close> on
  the bytes of the string and on their ASCII lower-case and upper-case forms. The C
  locale does on every string; a locale that differs from ASCII only above 127 does on
  every ASCII string.
\<close>

definition ascii_lowering :: "(char \<Rightarrow> char) \<Rightarrow> string \<Rightarrow> bool" where
  "ascii_lowering lower s =
     list_all (\<lambda>c. lower c = ascii_tolower c)
       (s @ map ascii_tolower s @ map ascii_toupper s)"

text \<open>
  A lowering that follows the Turkish rule for the letter I, in the single-byte encoding
  ISO 8859-9: \<open>I\<close> (73) goes to the dotless small i (253), the dotted capital I (221) to
  \<open>i\<close> (105); elsewhere it is the ASCII lowering.
\<close>

definition turkish_tolower :: "char \<Rightarrow> char" where
  "turkish_tolower c =
     (let n = (of_char c :: nat)
      in if n = 73 then char_of (253 :: nat)
         else if n = 221 then char_of (105 :: nat)
         else ascii_tolower c)"

subsection \<open>Writing a configuration back as arguments\<close>

text \<open>\<^verbatim>\<open>-k keyword -n newName\<close>, then \<^verbatim>\<open>-c command\<close> when \<open>executeCommand\<close> is set, then
  \<^verbatim>\<open>-v\<close> when \<open>verbose\<close> is set.\<close>

definition serialize :: "Config \<Rightarrow> string list" where
  "serialize config =
     [''-k'', keyword config, ''-n'', newName config]
     @ (if executeCommand config then [''-c'', command config] else [])
     @ (if verbose config then [''-v''] else [])"

subsection \<open>Argument lists made of well-formed options\<close>

text \<open>
  An occurrence of an option on the command line: \<^verbatim>\<open>-v\<close> or \<^verbatim>\<open>--verbose\<close>, or one of the
  three options that take a value, in its short or long spelling (\<open>True\<close> is the long
  one), with the value token that follows it.
\<close>

datatype flag = Keyword_flag | Newname_flag | Command_flag

datatype occurrence = Verbose_given bool | Value_given flag bool string

fun flag_token :: "flag \<Rightarrow> bool \<Rightarrow> string" where
  "flag_token Keyword_flag long = (if long then ''--keyword'' else ''-k'')"
| "flag_token Newname_flag long = (if long then ''--newname'' else ''-n'')"
| "flag_token Command_flag long = (if long then ''--command'' else ''-c'')"

fun tokens :: "occurrence \<Rightarrow> string list" where
  "tokens (Verbose_given long) = [if long then ''--verbose'' else ''-v'']"
| "tokens (Value_given f long v) = [flag_token f long, v]"

definition render :: "occurrence list \<Rightarrow> string list" where
  "render occs = concat (map tokens occs)"

text \<open>What the branch of the parser's loop for an occurrence does to the configuration.\<close>

fun apply_occ :: "Config \<Rightarrow> occurrence \<Rightarrow> Config" where
  "apply_occ config (Verbose_given long) = config\<lparr>verbose := True\<rparr>"
| "apply_occ config (Value_given Keyword_flag long v) = config\<lparr>keyword := v\<rparr>"
| "apply_occ config (Value_given Newname_flag long v) = config\<lparr>newName := v\<rparr>"
| "apply_occ config (Value_given Command_flag long v) =
     config\<lparr>command := v, executeCommand := True\<rparr>"

fun gives :: "flag \<Rightarrow> occurrence \<Rightarrow> bool" where
  "gives f (Verbose_given long) = False"
| "gives f (Value_given g long v) = (f = g)"

fun field :: "flag \<Rightarrow> Config \<Rightarrow> string" where
  "field Keyword_flag config = keyword config"
| "field Newname_flag config = newName config"
| "field Command_flag config = command config"

subsection \<open>Reading a run\<close>

text \<open>The configuration a parse of \<open>args\<close> leaves, starting from the default one.\<close>

definition parsed :: "string list \<Rightarrow> Config" where
  "parsed args = fst (snd (parseArguments args default_config))"

definition accepted :: "string list \<Rightarrow> bool" where
  "accepted args = fst (parseArguments args default_config)"

fun is_system_call :: "effect \<Rightarrow> bool" where
  "is_system_call (System_called cmd result) = True"
| "is_system_call e = False"

text \<open>The lines that report no match, several matches, an existing target or a caught
  exception: the outcomes after which nothing more is done.\<close>

fun halting_line :: "out \<Rightarrow> bool" where
  "halting_line (Cout (No_match k)) = True"
| "halting_line (Cout (Ambiguous_warning n)) = True"
| "halting_line (Cerr (Target_exists n)) = True"
| "halting_line (Cerr (Filesystem_error_text what)) = True"
| "halting_line (Cerr (Error_text what)) = True"
| "halting_line l = False"

subsection \<open>A sample host\<close>

text \<open>
  A working directory without subdirectory structure, as the list of its entries (name,
  whether it is a directory) in listing order, in the C locale. Nothing fails in it: an entry \<open>n\<close> is
  listed as \<^verbatim>\<open>./n\<close>, a name exists when it is listed, renaming replaces the name, and the
  command interpreter answers 1 to \<^verbatim>\<open>exit 1\<close>, 3 to \<^verbatim>\<open>exit 3\<close> and 0 to everything else,
  changing nothing.
\<close>

definition sample_host :: "(string \<times> bool) list host" where
  "sample_host =
     \<lparr>setConsoleEncoding = None,
      tolower = ascii_tolower,
      list_dir = (\<lambda>w. (map (\<lambda>(n, d). \<lparr>path = ''./'' @ n, filename = n, is_directory = d\<rparr>) w,
                       None)),
      path_exists = (\<lambda>w p. Inr (p \<in> set (map fst w))),
      rename_path = (\<lambda>w old new.
                       Inr (map (\<lambda>(n, d). if ''./'' @ n = old then (new, d) else (n, d)) w)),
      run_system = (\<lambda>w cmd. (if cmd = ''exit 1'' then 1 else if cmd = ''exit 3'' then 3 else 0,
                            w))\<rparr>"

section \<open>Properties of containsKeyword and of the scan\<close>











lemma ascii_lowering_C_locale: "ascii_lowering ascii_tolower s"
  by (simp add: ascii_lowering_def list_all_iff)


lemma string_find_empty: "string_find s [] = Some 0"
  by (cases s) simp_all



lemma scan_filter:
  "fst (scan lower config entries) =
     filter (\<lambda>e. is_directory e \<and> containsKeyword lower (filename e) (keyword config)) entries"
  by (induction entries) (auto split: prod.splits)

lemma scan_lines:
  "snd (scan lower config entries) =
     (if verbose config
      then map (\<lambda>e. Cout (Found_match (filename e))) (fst (scan lower config entries))
      else [])"
  by (induction entries) (auto split: prod.splits)




section \<open>Properties of parseArguments\<close>

lemma parse_loop_tokens:
  "parse_loop (tokens occ @ rest) c = parse_loop rest (apply_occ c occ)"
  by (cases "(c, occ)" rule: apply_occ.cases) auto

lemma parse_loop_render:
  "parse_loop (render occs @ rest) c = parse_loop rest (foldl apply_occ c occs)"
  by (induction occs arbitrary: c)
     (simp_all add: render_def parse_loop_tokens del: parse_loop.simps tokens.simps)

lemma render_Cons: "render (occ # occs) = tokens occ @ render occs"
  by (simp add: render_def)

text \<open>A list the loop accepts is a list of well-formed occurrences, the loop has applied
  them in order, and it has written nothing.\<close>

lemma parse_loop_accepted:
  "parse_loop args c = (ok, c', out) \<Longrightarrow> ok \<Longrightarrow>
     \<exists>occs. args = render occs \<and> c' = foldl apply_occ c occs \<and> out = []"
proof (induction args c rule: parse_loop.induct)
  case (1 config)
  then have "config = c' \<and> out = []" by simp
  then show ?case by (intro exI[of _ "[]"]) (simp add: render_def)
next
  case (2 arg rest config)
  note step = "2.prems"(1)[unfolded parse_loop.simps(2)]
  consider (v) "arg = ''-v'' \<or> arg = ''--verbose''"
    | (k) "arg = ''-k'' \<or> arg = ''--keyword''"
    | (n) "arg = ''-n'' \<or> arg = ''--newname''"
    | (c) "arg = ''-c'' \<or> arg = ''--command''"
    using step \<open>ok\<close> by (auto split: if_splits)
  then show ?case
  proof cases
    case v
    then have "parse_loop rest (config\<lparr>verbose := True\<rparr>) = (ok, c', out)"
      using step by auto
    with "2.IH"(1) v \<open>ok\<close> obtain occs where
      "rest = render occs \<and> c' = foldl apply_occ (config\<lparr>verbose := True\<rparr>) occs \<and> out = []"
      by (auto simp del: parse_loop.simps)
    with v show ?thesis
      by (intro exI[of _ "Verbose_given (arg = ''--verbose'') # occs"])
         (auto simp: render_Cons)
  next
    case k
    then obtain x rest' where r: "rest = x # rest'"
      and "parse_loop rest' (config\<lparr>keyword := x\<rparr>) = (ok, c', out)"
      using step \<open>ok\<close> by (auto split: list.splits simp del: parse_loop.simps)
    with "2.IH"(2) k \<open>ok\<close> obtain occs where
      "rest' = render occs \<and> c' = foldl apply_occ (config\<lparr>keyword := x\<rparr>) occs \<and> out = []"
      by (auto simp del: parse_loop.simps)
    with k r show ?thesis
      by (intro exI[of _ "Value_given Keyword_flag (arg = ''--keyword'') x # occs"])
         (auto simp: render_Cons)
  next
    case n
    then obtain x rest' where r: "rest = x # rest'"
      and "parse_loop rest' (config\<lparr>newName := x\<rparr>) = (ok, c', out)"
      using step \<open>ok\<close> by (auto split: list.splits simp del: parse_loop.simps)
    with "2.IH"(3) n \<open>ok\<close> obtain occs where
      "rest' = render occs \<and> c' = foldl apply_occ (config\<lparr>newName := x\<rparr>) occs \<and> out = []"
      by (auto simp del: parse_loop.simps)
    with n r show ?thesis
      by (intro exI[of _ "Value_given Newname_flag (arg = ''--newname'') x # occs"])
         (auto simp: render_Cons)
  next
    case c
    then obtain x rest' where r: "rest = x # rest'"
      and "parse_loop rest' (config\<lparr>command := x, executeCommand := True\<rparr>) = (ok, c', out)"
      using step \<open>ok\<close> by (auto split: list.splits simp del: parse_loop.simps)
    with "2.IH"(4) c \<open>ok\<close> obtain occs where
      "rest' = render occs
       \<and> c' = foldl apply_occ (config\<lparr>command := x, executeCommand := True\<rparr>) occs \<and> out = []"
      by (auto simp del: parse_loop.simps)
    with c r show ?thesis
      by (intro exI[of _ "Value_given Command_flag (arg = ''--command'') x # occs"])
         (auto simp: render_Cons)
  qed
qed

lemma parseArguments_accepts:
  "parseArguments args c = (True, c', out) \<longleftrightarrow>
     parse_loop args c = (True, c', out) \<and> keyword c' \<noteq> [] \<and> newName c' \<noteq> []"
  by (auto simp: parseArguments_def split: prod.splits bool.splits if_splits)

lemma parseArguments_render:
  "parseArguments (render occs) c =
     (let c' = foldl apply_occ c occs in
      if keyword c' = [] \<or> newName c' = []
      then (False, c', [Cerr Required_missing] @ showHelp) else (True, c', []))"
proof -
  have "parse_loop (render occs) c = (True, foldl apply_occ c occs, [])"
    using parse_loop_render[of occs "[]" c] by simp
  then show ?thesis
    by (simp add: parseArguments_def Let_def)
qed

lemma foldl_apply_occ_command:
  "\<not> executeCommand c \<longrightarrow> command c = [] \<Longrightarrow>
     \<not> executeCommand (foldl apply_occ c occs) \<longrightarrow> command (foldl apply_occ c occs) = []"
proof (induction occs arbitrary: c)
  case Nil
  then show ?case by simp
next
  case (Cons occ occs)
  have "\<not> executeCommand (apply_occ c occ) \<longrightarrow> command (apply_occ c occ) = []"
    using Cons.prems by (cases "(c, occ)" rule: apply_occ.cases) auto
  from Cons.IH[OF this] show ?case by simp
qed

lemma foldl_apply_occ_field:
  "\<forall>occ\<in>set occs. \<not> gives f occ \<Longrightarrow> field f (foldl apply_occ c occs) = field f c"
proof (induction occs arbitrary: c)
  case Nil
  then show ?case by simp
next
  case (Cons occ occs)
  have "field f (apply_occ c occ) = field f c"
    using Cons.prems by (cases "(c, occ)" rule: apply_occ.cases; cases f) auto
  with Cons show ?case by simp
qed

lemma foldl_apply_occ_execute_mono:
  "executeCommand c \<Longrightarrow> executeCommand (foldl apply_occ c occs)"
proof (induction occs arbitrary: c)
  case Nil
  then show ?case by simp
next
  case (Cons occ occs)
  have "executeCommand (apply_occ c occ)"
    using Cons.prems by (cases "(c, occ)" rule: apply_occ.cases) auto
  from Cons.IH[OF this] show ?case by simp
qed

lemma foldl_apply_occ_execute:
  "executeCommand (foldl apply_occ c occs) \<Longrightarrow> \<not> executeCommand c \<Longrightarrow>
     \<exists>occ\<in>set occs. gives Command_flag occ"
proof (induction occs arbitrary: c)
  case Nil
  then show ?case by simp
next
  case (Cons occ occs)
  show ?case
  proof (cases "gives Command_flag occ")
    case True
    then show ?thesis by simp
  next
    case False
    then have "executeCommand (apply_occ c occ) = executeCommand c"
      by (cases "(c, occ)" rule: apply_occ.cases) auto
    with Cons show ?thesis by auto
  qed
qed

lemma gives_command_tokens:
  "gives Command_flag occ \<Longrightarrow> ''-c'' \<in> set (tokens occ) \<or> ''--command'' \<in> set (tokens occ)"
  by (cases occ) auto

lemma render_command:
  "\<exists>occ\<in>set occs. gives Command_flag occ \<Longrightarrow>
     ''-c'' \<in> set (render occs) \<or> ''--command'' \<in> set (render occs)"
  using gives_command_tokens by (fastforce simp: render_def simp del: tokens.simps)

lemma parse_loop_command:
  assumes "parse_loop args default_config = (True, c, out)"
  shows "\<not> executeCommand c \<longrightarrow> command c = []"
proof -
  from parse_loop_accepted[OF assms] obtain occs
    where "c = foldl apply_occ default_config occs" by auto
  then show ?thesis
    using foldl_apply_occ_command[of default_config occs] by (simp add: default_config_def)
qed

lemma parse_loop_serialize:
  "parse_loop (serialize c) default_config =
     (True, \<lparr>keyword = keyword c, newName = newName c,
             command = (if executeCommand c then command c else []),
             executeCommand = executeCommand c, verbose = verbose c\<rparr>, [])"
  by (simp add: serialize_def default_config_def)

text \<open>
  Claim C8. When the parser accepts an argument list and leaves the configuration
  \<open>config\<close>, parsing \<open>serialize config\<close> is accepted too and leaves the same
  configuration, equal in all five fields.
\<close>

theorem parse_serialize_roundtrip:
  assumes "parseArguments args default_config = (True, config, lines)"
  shows "parseArguments (serialize config) default_config = (True, config, lines)"
proof -
  from assms have loop: "parse_loop args default_config = (True, config, lines)"
    and req: "keyword config \<noteq> []" "newName config \<noteq> []"
    by (simp_all add: parseArguments_accepts)
  from parse_loop_accepted[OF loop] have "lines = []" by auto
  moreover from loop have "\<not> executeCommand config \<longrightarrow> command config = []"
    by (rule parse_loop_command)
  ultimately show ?thesis
    using req by (simp add: parseArguments_accepts parse_loop_serialize)
qed

theorem parse_serialize_roundtrip_witness:
  "parseArguments [''--verbose'', ''-k'', ''old'', ''--newname'', ''new'', ''-c'', ''echo done'',
                   ''-k'', ''temp''] default_config
     = (True, \<lparr>keyword = ''temp'', newName = ''new'', command = ''echo done'',
                executeCommand = True, verbose = True\<rparr>, [])
   \<and> serialize \<lparr>keyword = ''temp'', newName = ''new'', command = ''echo done'',
                executeCommand = True, verbose = True\<rparr>
     = [''-k'', ''temp'', ''-n'', ''new'', ''-c'', ''echo done'', ''-v'']
   \<and> parseArguments [''-k'', ''temp'', ''-n'', ''new'', ''-c'', ''echo done'', ''-v'']
        default_config
     = (True, \<lparr>keyword = ''temp'', newName = ''new'', command = ''echo done'',
                executeCommand = True, verbose = True\<rparr>, [])"
proof -
  have accepted:
    "parseArguments [''--verbose'', ''-k'', ''old'', ''--newname'', ''new'', ''-c'',
                     ''echo done'', ''-k'', ''temp''] default_config
       = (True, \<lparr>keyword = ''temp'', newName = ''new'', command = ''echo done'',
                  executeCommand = True, verbose = True\<rparr>, [])"
    by (simp add: parseArguments_def default_config_def)
  from parse_serialize_roundtrip[OF accepted] accepted show ?thesis
    by (simp add: serialize_def)
qed

text \<open>
  Claim C9. In every locale \<open>containsKeyword\<close> holds of every folder name and the empty
  keyword, so a scan with the empty keyword keeps every directory of the listing. No accepted argument
  list leaves the keyword empty.
\<close>

theorem empty_keyword_matches_every_directory:
  "containsKeyword lower folderName []
   \<and> fst (scan lower (config\<lparr>keyword := []\<rparr>) entries) = filter is_directory entries
   \<and> (\<forall>args. accepted args \<longrightarrow> keyword (parsed args) \<noteq> [])"
proof -
  have "containsKeyword lower f []" for f
    by (simp add: containsKeyword_def string_find_empty)
  moreover have "accepted args \<longrightarrow> keyword (parsed args) \<noteq> []" for args
    by (cases "parseArguments args default_config" rule: prod_cases3)
       (auto simp: accepted_def parsed_def parseArguments_accepts)
  ultimately show ?thesis
    by (simp add: scan_filter)
qed

theorem empty_keyword_matches_every_directory_witness:
  "containsKeyword turkish_tolower ''Photos'' []
   \<and> fst (scan turkish_tolower (default_config\<lparr>keyword := []\<rparr>)
        [\<lparr>path = ''./Photos'', filename = ''Photos'', is_directory = True\<rparr>,
         \<lparr>path = ''./notes.txt'', filename = ''notes.txt'', is_directory = False\<rparr>])
     = [\<lparr>path = ''./Photos'', filename = ''Photos'', is_directory = True\<rparr>]
   \<and> accepted [''-k'', ''a'', ''-n'', ''b'']
   \<and> keyword (parsed [''-k'', ''a'', ''-n'', ''b'']) \<noteq> []"
proof -
  have acc: "accepted [''-k'', ''a'', ''-n'', ''b'']"
    by (simp add: accepted_def parseArguments_def default_config_def)
  from empty_keyword_matches_every_directory
         [of turkish_tolower "''Photos''" default_config
             "[\<lparr>path = ''./Photos'', filename = ''Photos'', is_directory = True\<rparr>,
               \<lparr>path = ''./notes.txt'', filename = ''notes.txt'', is_directory = False\<rparr>]"]
    acc
  show ?thesis by simp
qed

text \<open>
  Claim C10, as it stands, fails: an argument list that repeats \<^verbatim>\<open>-k\<close>, each time with
  a value, and gives no \<^verbatim>\<open>-n\<close> is rejected.
\<close>

theorem repeated_option_counterexample:
  "\<not> fst (parseArguments [''-k'', ''a'', ''-k'', ''b''] default_config)"
  by (simp add: parseArguments_def default_config_def)

text \<open>
  Claim C10, amended. Take an argument list made only of well-formed occurrences of
  options, each option repeated any number of times, and an occurrence of a value-taking
  option after which that option does not occur again. Then the field of that option is
  the value of this last occurrence (and \<open>executeCommand\<close> is set when the option is the
  command), the parser accepts the list exactly when the keyword and the new name it ends
  with are not empty, and it writes nothing when it accepts.
\<close>

theorem repeated_option_last_wins:
  assumes "occs = before @ Value_given f long v # after"
    and "\<forall>occ\<in>set after. \<not> gives f occ"
    and "parseArguments (render occs) default_config = (ok, config, lines)"
  shows "field f config = v
       \<and> (f = Command_flag \<longrightarrow> executeCommand config)
       \<and> (ok \<longleftrightarrow> keyword config \<noteq> [] \<and> newName config \<noteq> [])
       \<and> lines = (if ok then [] else [Cerr Required_missing] @ showHelp)"
proof -
  have c: "config = foldl apply_occ default_config occs"
    and ok: "ok \<longleftrightarrow> keyword config \<noteq> [] \<and> newName config \<noteq> []"
    and lines: "lines = (if ok then [] else [Cerr Required_missing] @ showHelp)"
    using assms(3) by (auto simp: parseArguments_render Let_def split: if_splits)
  define c1 where "c1 = apply_occ (foldl apply_occ default_config before) (Value_given f long v)"
  have c1: "field f c1 = v" "f = Command_flag \<longrightarrow> executeCommand c1"
    unfolding c1_def by (cases f; simp)+
  have c': "config = foldl apply_occ c1 after"
    by (simp add: c assms(1) c1_def)
  have "field f config = v"
    using foldl_apply_occ_field[OF assms(2), of c1] c1(1) c' by simp
  moreover have "f = Command_flag \<longrightarrow> executeCommand config"
    using foldl_apply_occ_execute_mono[of c1 after] c1(2) c' by simp
  ultimately show ?thesis using ok lines by blast
qed

theorem repeated_option_last_wins_witness:
  "render [Value_given Keyword_flag False ''a'', Value_given Newname_flag True ''n'',
           Value_given Keyword_flag True ''b'', Verbose_given False]
     = [''-k'', ''a'', ''--newname'', ''n'', ''--keyword'', ''b'', ''-v'']
   \<and> \<not> gives Keyword_flag (Verbose_given False)
   \<and> parseArguments [''-k'', ''a'', ''--newname'', ''n'', ''--keyword'', ''b'', ''-v'']
        default_config
     = (True, \<lparr>keyword = ''b'', newName = ''n'', command = [], executeCommand = False,
                verbose = True\<rparr>, [])
   \<and> field Keyword_flag \<lparr>keyword = ''b'', newName = ''n'', command = [],
                           executeCommand = False, verbose = True\<rparr> = ''b''"
proof -
  have shape:
    "[Value_given Keyword_flag False ''a'', Value_given Newname_flag True ''n'',
      Value_given Keyword_flag True ''b'', Verbose_given False]
     = [Value_given Keyword_flag False ''a'', Value_given Newname_flag True ''n'']
       @ Value_given Keyword_flag True ''b'' # [Verbose_given False]"
    by simp
  have last: "\<forall>occ\<in>set [Verbose_given False]. \<not> gives Keyword_flag occ"
    by simp
  have parse:
    "parseArguments
       (render [Value_given Keyword_flag False ''a'', Value_given Newname_flag True ''n'',
                Value_given Keyword_flag True ''b'', Verbose_given False]) default_config
     = (True, \<lparr>keyword = ''b'', newName = ''n'', command = [], executeCommand = False,
                verbose = True\<rparr>, [])"
    by (simp add: render_def parseArguments_def default_config_def)
  from repeated_option_last_wins[OF shape last parse] parse show ?thesis
    by (simp add: render_def)
qed

section \<open>Properties of main\<close>

lemma contains_keyword_ignores_case:
  "containsKeyword ascii_tolower ''Old_Temp'' ''oLd''
   \<and> \<not> containsKeyword ascii_tolower ''Old_Temp'' ''xyz''"
  by code_simp

lemma main_parsed:
  assumes "setConsoleEncoding h = None"
    and "parseArguments args default_config = (True, config, lines)"
  shows "main h w args = process h w config (banner config)"
proof -
  from assms(2) have "parse_loop args default_config = (True, config, lines)"
    by (simp add: parseArguments_accepts)
  from parse_loop_accepted[OF this] have "lines = []" by auto
  with assms show ?thesis by (simp add: main_def)
qed

lemma main_rejected:
  assumes "setConsoleEncoding h = None"
    and "parseArguments args default_config = (False, config, lines)"
  shows "main h w args = \<lparr>status = Exit 1, written = lines, effects = [], world = w\<rparr>"
  using assms by (simp add: main_def)

lemma parse_loop_help:
  assumes "hflag = ''-h'' \<or> hflag = ''--help''"
  shows "parse_loop (render occs @ hflag # rest) c = (False, foldl apply_occ c occs, showHelp)"
  using assms by (auto simp: parse_loop_render simp del: parse_loop.simps(1))

lemma banner_not_halting: "\<forall>l\<in>set (banner config). \<not> halting_line l"
  by (auto simp: banner_def)

lemma scan_not_halting: "\<forall>l\<in>set (snd (scan lower config entries)). \<not> halting_line l"
  by (auto simp: scan_lines)

lemma process_system:
  assumes "\<forall>l\<in>set pre. \<not> halting_line l"
  shows "length (filter is_system_call (effects (process h w config pre))) \<le> 1
       \<and> (\<forall>cmd result. System_called cmd result \<in> set (effects (process h w config pre)) \<longrightarrow>
             executeCommand config \<and> cmd = command config
           \<and> effects (process h w config pre)
               = [Listed, Exists_checked (newName config),
                  Rename_called
                    (path (hd (fst (scan (tolower h) config (fst (list_dir h w))))))
                    (newName config) True,
                  System_called cmd result]
           \<and> (\<forall>l\<in>set (written (process h w config pre)). \<not> halting_line l))"
proof -
  obtain entries failure where l: "list_dir h w = (entries, failure)"
    by (cases "list_dir h w")
  obtain matchedFolders found
    where s: "scan (tolower h) config entries = (matchedFolders, found)"
    by (cases "scan (tolower h) config entries")
  have f: "\<forall>l\<in>set found. \<not> halting_line l"
    using scan_not_halting[of "tolower h" config entries] s by simp
  show ?thesis
    using assms f
    by (auto simp: process_def Let_def executeExternalCommand_def l s
        split: option.splits sum.splits bool.splits prod.splits)
qed

text \<open>
  Claim C1. In a run that reaches the scan and whose scan ends with more than one matched
  directory, the program writes the warning with the number of matches and the hint to
  narrow the keyword, returns 1, and has called nothing but the directory listing: no
  \<^verbatim>\<open>fs::rename\<close>, and the world is as it was.
\<close>

theorem ambiguous_match_refuses_rename:
  assumes "setConsoleEncoding h = None"
    and "parseArguments args default_config = (True, config, lines)"
    and "list_dir h w = (entries, None)"
    and "scan (tolower h) config entries = (matchedFolders, found)"
    and "length matchedFolders > 1"
  shows "status (main h w args) = Exit 1
       \<and> written (main h w args)
           = banner config @ found
             @ [Cout (Ambiguous_warning (length matchedFolders)), Cout Narrow_keyword_hint]
       \<and> effects (main h w args) = [Listed]
       \<and> world (main h w args) = w"
proof -
  from assms(5) have "matchedFolders \<noteq> []" by auto
  with assms(3-5) show ?thesis
    unfolding main_parsed[OF assms(1,2)]
    by (simp add: process_def)
qed

theorem ambiguous_match_refuses_rename_witness:
  "setConsoleEncoding sample_host = None
   \<and> parseArguments [''-k'', ''old'', ''-n'', ''new''] default_config
       = (True, \<lparr>keyword = ''old'', newName = ''new'', command = [], executeCommand = False,
                  verbose = False\<rparr>, [])
   \<and> list_dir sample_host [(''old_temp'', True), (''old_backup'', True)]
       = ([\<lparr>path = ''./old_temp'', filename = ''old_temp'', is_directory = True\<rparr>,
           \<lparr>path = ''./old_backup'', filename = ''old_backup'', is_directory = True\<rparr>], None)
   \<and> status (main sample_host [(''old_temp'', True), (''old_backup'', True)]
                [''-k'', ''old'', ''-n'', ''new'']) = Exit 1
   \<and> written (main sample_host [(''old_temp'', True), (''old_backup'', True)]
                 [''-k'', ''old'', ''-n'', ''new''])
       = [Cout (Ambiguous_warning 2), Cout Narrow_keyword_hint]
   \<and> effects (main sample_host [(''old_temp'', True), (''old_backup'', True)]
                 [''-k'', ''old'', ''-n'', ''new'']) = [Listed]
   \<and> world (main sample_host [(''old_temp'', True), (''old_backup'', True)]
               [''-k'', ''old'', ''-n'', ''new''])
       = [(''old_temp'', True), (''old_backup'', True)]"
proof -
  let ?config = "\<lparr>keyword = ''old'', newName = ''new'', command = [], executeCommand = False,
                  verbose = False\<rparr>"
  let ?entries = "[\<lparr>path = ''./old_temp'', filename = ''old_temp'', is_directory = True\<rparr>,
                   \<lparr>path = ''./old_backup'', filename = ''old_backup'', is_directory = True\<rparr>]"
  have console: "setConsoleEncoding sample_host = None"
    by (simp add: sample_host_def)
  have parse: "parseArguments [''-k'', ''old'', ''-n'', ''new''] default_config
                 = (True, ?config, [])"
    by (simp add: parseArguments_def default_config_def)
  have listing: "list_dir sample_host [(''old_temp'', True), (''old_backup'', True)]
                   = (?entries, None)"
    by (simp add: sample_host_def)
  have scanned: "scan (tolower sample_host) ?config ?entries = (?entries, [])"
    by (simp add: sample_host_def containsKeyword_def ascii_tolower_def)
  have several: "length ?entries > 1"
    by simp
  from ambiguous_match_refuses_rename[OF console parse listing scanned several]
    console parse listing
  show ?thesis
    by (simp add: banner_def)
qed

text \<open>
  Claim C2. In a run that reaches the scan and whose scan ends with exactly one matched
  directory, if \<^verbatim>\<open>fs::exists\<close> answers true for the new name, the program writes that
  the target name exists, returns 1, and has called only the listing and the existence
  test: no \<^verbatim>\<open>fs::rename\<close>, and the world is as it was.
\<close>

theorem existing_target_refuses_rename:
  assumes "setConsoleEncoding h = None"
    and "parseArguments args default_config = (True, config, lines)"
    and "list_dir h w = (entries, None)"
    and "scan (tolower h) config entries = ([matched], found)"
    and "path_exists h w (newName config) = Inr True"
  shows "status (main h w args) = Exit 1
       \<and> written (main h w args)
           = banner config @ found @ [Cerr (Target_exists (newName config))]
       \<and> effects (main h w args) = [Listed, Exists_checked (newName config)]
       \<and> world (main h w args) = w"
  using assms(3-5)
  unfolding main_parsed[OF assms(1,2)]
  by (simp add: process_def Let_def)

theorem existing_target_refuses_rename_witness:
  "setConsoleEncoding sample_host = None
   \<and> parseArguments [''-k'', ''temp'', ''-n'', ''final''] default_config
       = (True, \<lparr>keyword = ''temp'', newName = ''final'', command = [],
                  executeCommand = False, verbose = False\<rparr>, [])
   \<and> list_dir sample_host [(''temp_project'', True), (''final'', False)]
       = ([\<lparr>path = ''./temp_project'', filename = ''temp_project'', is_directory = True\<rparr>,
           \<lparr>path = ''./final'', filename = ''final'', is_directory = False\<rparr>], None)
   \<and> path_exists sample_host [(''temp_project'', True), (''final'', False)] ''final''
       = Inr True
   \<and> status (main sample_host [(''temp_project'', True), (''final'', False)]
                [''-k'', ''temp'', ''-n'', ''final'']) = Exit 1
   \<and> written (main sample_host [(''temp_project'', True), (''final'', False)]
                 [''-k'', ''temp'', ''-n'', ''final''])
       = [Cerr (Target_exists ''final'')]
   \<and> effects (main sample_host [(''temp_project'', True), (''final'', False)]
                 [''-k'', ''temp'', ''-n'', ''final''])
       = [Listed, Exists_checked ''final'']
   \<and> world (main sample_host [(''temp_project'', True), (''final'', False)]
               [''-k'', ''temp'', ''-n'', ''final''])
       = [(''temp_project'', True), (''final'', False)]"
proof -
  let ?config = "\<lparr>keyword = ''temp'', newName = ''final'', command = [],
                  executeCommand = False, verbose = False\<rparr>"
  let ?dir = "\<lparr>path = ''./temp_project'', filename = ''temp_project'', is_directory = True\<rparr>"
  let ?file = "\<lparr>path = ''./final'', filename = ''final'', is_directory = False\<rparr>"
  have console: "setConsoleEncoding sample_host = None"
    by (simp add: sample_host_def)
  have parse: "parseArguments [''-k'', ''temp'', ''-n'', ''final''] default_config
                 = (True, ?config, [])"
    by (simp add: parseArguments_def default_config_def)
  have listing: "list_dir sample_host [(''temp_project'', True), (''final'', False)]
                   = ([?dir, ?file], None)"
    by (simp add: sample_host_def)
  have scanned: "scan (tolower sample_host) ?config [?dir, ?file] = ([?dir], [])"
    by (simp add: sample_host_def containsKeyword_def ascii_tolower_def)
  have there: "path_exists sample_host [(''temp_project'', True), (''final'', False)]
                 (newName ?config) = Inr True"
    by (simp add: sample_host_def)
  from existing_target_refuses_rename[OF console parse listing scanned there]
    console parse listing there
  show ?thesis
    by (simp add: banner_def)
qed

text \<open>
  Claim C3, as it stands, fails. With \<^verbatim>\<open>-h\<close> alone the process returns 1, not 0; and a
  \<^verbatim>\<open>-h\<close> that is the value of \<^verbatim>\<open>-k\<close> is a keyword: the run lists the directory and
  writes no usage text.
\<close>

theorem help_exit_code_counterexample:
  "status (main sample_host [] [''-h'']) \<noteq> Exit 0
   \<and> main sample_host [] [''-k'', ''-h'', ''-n'', ''x'']
       = \<lparr>status = Exit 0, written = [Cout (No_match ''-h'')], effects = [Listed],
          world = []\<rparr>"
  by (simp add: main_def sample_host_def parseArguments_def default_config_def showHelp_def
      process_def banner_def)

text \<open>
  Claim C3, amended. When the console set-up returns and \<^verbatim>\<open>-h\<close> or \<^verbatim>\<open>--help\<close> is the
  first token that is not part of a well-formed option occurrence (whatever follows it),
  the program writes the usage text and nothing else, calls neither the file system nor
  the command interpreter, and returns 1.
\<close>

theorem help_reached_prints_usage:
  assumes "setConsoleEncoding h = None"
    and "hflag = ''-h'' \<or> hflag = ''--help''"
  shows "main h w (render occs @ hflag # rest)
           = \<lparr>status = Exit 1, written = [Cout Usage], effects = [], world = w\<rparr>"
  using assms(1) parse_loop_help[OF assms(2)]
  by (simp add: main_def parseArguments_def showHelp_def)

theorem help_reached_prints_usage_witness:
  "setConsoleEncoding sample_host = None
   \<and> render [Verbose_given False, Value_given Keyword_flag False ''x''] @ ''--help'' # [''junk'']
       = [''-v'', ''-k'', ''x'', ''--help'', ''junk'']
   \<and> main sample_host [(''x1'', True)] [''-v'', ''-k'', ''x'', ''--help'', ''junk'']
       = \<lparr>status = Exit 1, written = [Cout Usage], effects = [], world = [(''x1'', True)]\<rparr>"
proof -
  have console: "setConsoleEncoding sample_host = None"
    by (simp add: sample_host_def)
  have flag: "''--help'' = ''-h'' \<or> ''--help'' = ''--help''"
    by simp
  from help_reached_prints_usage
         [OF console flag,
          of "[(''x1'', True)]" "[Verbose_given False, Value_given Keyword_flag False ''x'']"
             "[''junk'']"]
    console
  show ?thesis
    by (simp add: render_def)
qed

text \<open>
  Claim C5. In a run whose single match was renamed and whose configured command gives
  \<^verbatim>\<open>std::system\<close> a result other than 0, the program returns 1 whatever that result
  is and writes the result. Its calls on the host are the listing, the existence test,
  the one successful rename and the command: it calls no second rename, and the world
  it ends in is the one the command left, started in the renamed world.
\<close>

theorem failed_command_keeps_rename:
  assumes "setConsoleEncoding h = None"
    and "parseArguments args default_config = (True, config, lines)"
    and "list_dir h w = (entries, None)"
    and "scan (tolower h) config entries = ([matched], found)"
    and "path_exists h w (newName config) = Inr False"
    and "rename_path h w (path matched) (newName config) = Inr w1"
    and "executeCommand config"
    and "run_system h w1 (command config) = (result, w2)"
    and "result \<noteq> 0"
  shows "status (main h w args) = Exit 1
       \<and> effects (main h w args)
           = [Listed, Exists_checked (newName config),
              Rename_called (path matched) (newName config) True,
              System_called (command config) result]
       \<and> world (main h w args) = w2
       \<and> written (main h w args)
           = banner config @ found
             @ [Cout (Rename_succeeded (filename matched) (newName config)),
                Cout Running_followup]
             @ (if verbose config then [Cout (Executing (command config))] else [])
             @ [Cerr (Command_failed result)]"
  using assms(3-9)
  unfolding main_parsed[OF assms(1,2)]
  by (simp add: process_def executeExternalCommand_def Let_def)

theorem failed_command_keeps_rename_witness:
  "setConsoleEncoding sample_host = None
   \<and> parseArguments [''-k'', ''temp'', ''-n'', ''final'', ''--command'', ''exit 3'']
        default_config
       = (True, \<lparr>keyword = ''temp'', newName = ''final'', command = ''exit 3'',
                  executeCommand = True, verbose = False\<rparr>, [])
   \<and> list_dir sample_host [(''temp_project'', True)]
       = ([\<lparr>path = ''./temp_project'', filename = ''temp_project'', is_directory = True\<rparr>],
          None)
   \<and> path_exists sample_host [(''temp_project'', True)] ''final'' = Inr False
   \<and> rename_path sample_host [(''temp_project'', True)] ''./temp_project'' ''final''
       = Inr [(''final'', True)]
   \<and> run_system sample_host [(''final'', True)] ''exit 3'' = (3, [(''final'', True)])
   \<and> status (main sample_host [(''temp_project'', True)]
                [''-k'', ''temp'', ''-n'', ''final'', ''--command'', ''exit 3'']) = Exit 1
   \<and> effects (main sample_host [(''temp_project'', True)]
                 [''-k'', ''temp'', ''-n'', ''final'', ''--command'', ''exit 3''])
       = [Listed, Exists_checked ''final'', Rename_called ''./temp_project'' ''final'' True,
          System_called ''exit 3'' 3]
   \<and> world (main sample_host [(''temp_project'', True)]
               [''-k'', ''temp'', ''-n'', ''final'', ''--command'', ''exit 3''])
       = [(''final'', True)]
   \<and> written (main sample_host [(''temp_project'', True)]
                 [''-k'', ''temp'', ''-n'', ''final'', ''--command'', ''exit 3''])
       = [Cout (Rename_succeeded ''temp_project'' ''final''), Cout Running_followup,
          Cerr (Command_failed 3)]"
proof -
  let ?config = "\<lparr>keyword = ''temp'', newName = ''final'', command = ''exit 3'',
                  executeCommand = True, verbose = False\<rparr>"
  let ?dir = "\<lparr>path = ''./temp_project'', filename = ''temp_project'', is_directory = True\<rparr>"
  have console: "setConsoleEncoding sample_host = None"
    by (simp add: sample_host_def)
  have parse:
    "parseArguments [''-k'', ''temp'', ''-n'', ''final'', ''--command'', ''exit 3'']
       default_config = (True, ?config, [])"
    by (simp add: parseArguments_def default_config_def)
  have listing: "list_dir sample_host [(''temp_project'', True)] = ([?dir], None)"
    by (simp add: sample_host_def)
  have scanned: "scan (tolower sample_host) ?config [?dir] = ([?dir], [])"
    by (simp add: sample_host_def containsKeyword_def ascii_tolower_def)
  have free: "path_exists sample_host [(''temp_project'', True)] (newName ?config) = Inr False"
    by (simp add: sample_host_def)
  have renamed:
    "rename_path sample_host [(''temp_project'', True)] (path ?dir) (newName ?config)
       = Inr [(''final'', True)]"
    by (simp add: sample_host_def)
  have configured: "executeCommand ?config"
    by simp
  have ran: "run_system sample_host [(''final'', True)] (command ?config)
               = (3, [(''final'', True)])"
    by (simp add: sample_host_def)
  have failed: "(3::int) \<noteq> 0"
    by simp
  from failed_command_keeps_rename
         [OF console parse listing scanned free renamed configured ran failed]
    console parse listing free renamed ran
  show ?thesis
    by (simp add: banner_def)
qed

text \<open>
  Claim C6. In every run \<^verbatim>\<open>std::system\<close> is called at most once. When it is called, the
  parser had accepted the arguments with \<open>executeCommand\<close> set, which takes a \<^verbatim>\<open>-c\<close> or
  \<^verbatim>\<open>--command\<close> among them, the command is the configured one, and the calls before it
  are the listing, the existence test and the rename of the single match, which
  returned normally; and the run has written none of the lines that report no match,
  several matches, an existing target or a caught exception.
\<close>

theorem command_runs_once_after_rename:
  "length (filter is_system_call (effects (main h w args))) \<le> 1
   \<and> (\<forall>cmd result. System_called cmd result \<in> set (effects (main h w args)) \<longrightarrow>
         accepted args \<and> executeCommand (parsed args) \<and> cmd = command (parsed args)
       \<and> (''-c'' \<in> set args \<or> ''--command'' \<in> set args)
       \<and> effects (main h w args)
           = [Listed, Exists_checked (newName (parsed args)),
              Rename_called
                (path (hd (fst (scan (tolower h) (parsed args) (fst (list_dir h w))))))
                (newName (parsed args)) True,
              System_called cmd result]
       \<and> (\<forall>l\<in>set (written (main h w args)). \<not> halting_line l))"
proof (cases "setConsoleEncoding h")
  case (Some e)
  then show ?thesis by (simp add: main_def)
next
  case None
  obtain ok config lines where p: "parseArguments args default_config = (ok, config, lines)"
    by (cases "parseArguments args default_config" rule: prod_cases3)
  show ?thesis
  proof (cases ok)
    case False
    with p show ?thesis by (simp add: main_rejected[OF None, of args config lines])
  next
    case True
    with p have p': "parseArguments args default_config = (True, config, lines)" by simp
    then have acc: "accepted args" "parsed args = config"
      by (simp_all add: accepted_def parsed_def)
    from p' have "parse_loop args default_config = (True, config, lines)"
      by (simp add: parseArguments_accepts)
    from parse_loop_accepted[OF this] obtain occs
      where occs: "args = render occs" "config = foldl apply_occ default_config occs"
      by auto
    have flag: "''-c'' \<in> set args \<or> ''--command'' \<in> set args" if "executeCommand config"
    proof -
      have "\<not> executeCommand default_config" by (simp add: default_config_def)
      with that occs(2) have "\<exists>occ\<in>set occs. gives Command_flag occ"
        using foldl_apply_occ_execute[of default_config occs] by simp
      then show ?thesis using render_command occs(1) by simp
    qed
    show ?thesis
      unfolding main_parsed[OF None p'] acc
      using process_system[OF banner_not_halting, of h w config config] flag acc(1)
      by blast
  qed
qed

theorem command_runs_once_after_rename_witness:
  "System_called ''echo done'' 0
     \<in> set (effects (main sample_host [(''temp_project'', True)]
                       [''-k'', ''temp'', ''-n'', ''final'', ''-c'', ''echo done'']))
   \<and> accepted [''-k'', ''temp'', ''-n'', ''final'', ''-c'', ''echo done'']
   \<and> executeCommand (parsed [''-k'', ''temp'', ''-n'', ''final'', ''-c'', ''echo done''])
   \<and> command (parsed [''-k'', ''temp'', ''-n'', ''final'', ''-c'', ''echo done''])
       = ''echo done''
   \<and> effects (main sample_host [(''temp_project'', True)]
                 [''-k'', ''temp'', ''-n'', ''final'', ''-c'', ''echo done''])
       = [Listed, Exists_checked ''final'', Rename_called ''./temp_project'' ''final'' True,
          System_called ''echo done'' 0]
   \<and> length (filter is_system_call
               (effects (main sample_host [(''temp_project'', True)]
                           [''-k'', ''temp'', ''-n'', ''final'', ''-c'', ''echo done''])))
       \<le> 1"
proof -
  let ?args = "[''-k'', ''temp'', ''-n'', ''final'', ''-c'', ''echo done'']"
  have run: "effects (main sample_host [(''temp_project'', True)] ?args)
               = [Listed, Exists_checked ''final'',
                  Rename_called ''./temp_project'' ''final'' True,
                  System_called ''echo done'' 0]"
    by (simp add: main_def sample_host_def parseArguments_def default_config_def
        process_def banner_def containsKeyword_def ascii_tolower_def executeExternalCommand_def
        Let_def)
  then have called:
    "System_called ''echo done'' 0
       \<in> set (effects (main sample_host [(''temp_project'', True)] ?args))"
    by simp
  from command_runs_once_after_rename[of sample_host "[(''temp_project'', True)]" ?args]
    called
  have "accepted ?args \<and> executeCommand (parsed ?args)
        \<and> ''echo done'' = command (parsed ?args)
        \<and> length (filter is_system_call
                    (effects (main sample_host [(''temp_project'', True)] ?args))) \<le> 1"
    by blast
  with run called show ?thesis
    by simp
qed

text \<open>
  Claim C7. In a run that reaches the scan and whose scan ends with no matched directory,
  the program writes that no folder contains the keyword, returns 0, and has called
  nothing but the directory listing: no rename, no command, and the world is as it was.
\<close>

theorem no_match_exits_zero:
  assumes "setConsoleEncoding h = None"
    and "parseArguments args default_config = (True, config, lines)"
    and "list_dir h w = (entries, None)"
    and "scan (tolower h) config entries = ([], found)"
  shows "status (main h w args) = Exit 0
       \<and> written (main h w args) = banner config @ [Cout (No_match (keyword config))]
       \<and> effects (main h w args) = [Listed]
       \<and> world (main h w args) = w"
proof -
  from assms(4) have "fst (scan (tolower h) config entries) = []"
    and "snd (scan (tolower h) config entries) = found"
    by simp_all
  then have "found = []"
    using scan_lines[of "tolower h" config entries] by (simp split: if_splits)
  with assms(3,4) show ?thesis
    unfolding main_parsed[OF assms(1,2)]
    by (simp add: process_def)
qed

theorem no_match_exits_zero_witness:
  "setConsoleEncoding sample_host = None
   \<and> parseArguments [''-k'', ''xyz'', ''-n'', ''new'', ''-c'', ''echo done''] default_config
       = (True, \<lparr>keyword = ''xyz'', newName = ''new'', command = ''echo done'',
                  executeCommand = True, verbose = False\<rparr>, [])
   \<and> list_dir sample_host [(''alpha'', True), (''xyz.txt'', False)]
       = ([\<lparr>path = ''./alpha'', filename = ''alpha'', is_directory = True\<rparr>,
           \<lparr>path = ''./xyz.txt'', filename = ''xyz.txt'', is_directory = False\<rparr>], None)
   \<and> main sample_host [(''alpha'', True), (''xyz.txt'', False)]
        [''-k'', ''xyz'', ''-n'', ''new'', ''-c'', ''echo done'']
       = \<lparr>status = Exit 0, written = [Cout (No_match ''xyz'')], effects = [Listed],
          world = [(''alpha'', True), (''xyz.txt'', False)]\<rparr>"
proof -
  let ?config = "\<lparr>keyword = ''xyz'', newName = ''new'', command = ''echo done'',
                  executeCommand = True, verbose = False\<rparr>"
  let ?dir = "\<lparr>path = ''./alpha'', filename = ''alpha'', is_directory = True\<rparr>"
  let ?file = "\<lparr>path = ''./xyz.txt'', filename = ''xyz.txt'', is_directory = False\<rparr>"
  let ?run = "main sample_host [(''alpha'', True), (''xyz.txt'', False)]
                [''-k'', ''xyz'', ''-n'', ''new'', ''-c'', ''echo done'']"
  have console: "setConsoleEncoding sample_host = None"
    by (simp add: sample_host_def)
  have parse:
    "parseArguments [''-k'', ''xyz'', ''-n'', ''new'', ''-c'', ''echo done''] default_config
       = (True, ?config, [])"
    by (simp add: parseArguments_def default_config_def)
  have listing: "list_dir sample_host [(''alpha'', True), (''xyz.txt'', False)]
                   = ([?dir, ?file], None)"
    by (simp add: sample_host_def)
  have scanned: "scan (tolower sample_host) ?config [?dir, ?file] = ([], [])"
    by (simp add: sample_host_def containsKeyword_def ascii_tolower_def)
  from no_match_exits_zero[OF console parse listing scanned]
  have "status ?run = Exit 0 \<and> written ?run = [Cout (No_match ''xyz'')]
        \<and> effects ?run = [Listed] \<and> world ?run = [(''alpha'', True), (''xyz.txt'', False)]"
    by (simp add: banner_def)
  then have "?run = \<lparr>status = Exit 0, written = [Cout (No_match ''xyz'')], effects = [Listed],
                     world = [(''alpha'', True), (''xyz.txt'', False)]\<rparr>"
    by (cases ?run) simp
  with console parse listing show ?thesis
    by simp
qed

end
